theory Spec2Isabelle
  imports Complex_Main "HOL-Library.Stream"
begin

section \<open>The random source\<close>

text \<open>
  The notebook \<^verbatim>\<open>code/chap08ex.ipynb\<close> draws all its random numbers from Python's
  process-wide generator (\<^verbatim>\<open>random.gauss\<close>, \<^verbatim>\<open>random.expovariate\<close>). The generator is
  modelled by the stream of values its successive calls return: a call reads the head of
  the stream and leaves the tail as the new generator state. The distribution parameters are
  handed to the call as in the source; they describe how the stream was produced and do not
  change which value is read. A rate of \<open>0\<close>, on which \<^verbatim>\<open>random.expovariate\<close> raises
  \<^verbatim>\<open>ZeroDivisionError\<close> before any value is drawn, is outside the model.
\<close>

type_synonym rng = "real stream"

definition expovariate :: "real \<Rightarrow> rng \<Rightarrow> real \<times> rng" where
  "expovariate lambd g = (shd g, stl g)"

definition gauss :: "real \<Rightarrow> real \<Rightarrow> rng \<Rightarrow> real \<times> rng" where
  "gauss mu sigma g = (shd g, stl g)"

section \<open>SimulateGame\<close>

text \<open>
  \<^verbatim>\<open>
  def SimulateGame(lam):
      goals = 0
      t = 0
      while True:
          time_between_goals = random.expovariate(lam)
          t += time_between_goals
          if t > 1:
              break
          goals += 1

      # estimated goal-scoring rate is the actual number of goals scored
      L = goals
      return L
  \<close>
  The \<^verbatim>\<open>while True\<close> loop need not stop (a generator that only returns \<open>0\<close> never gets
  past \<open>t = 0\<close>), so the loop lives in the option monad: \<open>None\<close> is a run that never
  returns. \<open>goals\<close> is a Python integer, \<open>t\<close> a sum of the gaps drawn so far, here an
  exact real sum (the loop with the machine's rounded additions is \<open>SimulateGame_loop_fl\<close>
  below). The result carries the generator state after the last draw next to the returned
  count.
\<close>

partial_function (option)
  SimulateGame_loop :: "real \<Rightarrow> rng \<Rightarrow> int \<Rightarrow> real \<Rightarrow> (int \<times> rng) option"
where
  "SimulateGame_loop lam g goals t =
     (let (time_between_goals, g') = expovariate lam g;
          t' = t + time_between_goals
      in if t' > 1 then Some (goals, g')
         else SimulateGame_loop lam g' (goals + 1) t')"

definition SimulateGame :: "real \<Rightarrow> rng \<Rightarrow> (int \<times> rng) option" where
  "SimulateGame lam g = SimulateGame_loop lam g 0 0"

text \<open>The elapsed time after the first \<open>k\<close> gaps of a generator: \<open>g\<^sub>1 + \<dots> + g\<^sub>k\<close>.\<close>

definition elapsed :: "rng \<Rightarrow> nat \<Rightarrow> real" where
  "elapsed g k = sum_list (stake k g)"

section \<open>Numbers and numpy's reductions\<close>

text \<open>
  Floats are modelled by exact reals, extended by the one non-number the notebook can
  produce: \<^verbatim>\<open>np.mean\<close> and \<^verbatim>\<open>np.median\<close> of an empty sequence issue a
  \<^verbatim>\<open>RuntimeWarning\<close> and return \<^verbatim>\<open>nan\<close>; they do not raise. Arithmetic on \<^verbatim>\<open>nan\<close>
  gives \<^verbatim>\<open>nan\<close>. This section computes in exact real arithmetic; the rounding of the
  machine is added in the last two sections of definitions. Infinities are outside the
  model.
\<close>

datatype npfloat = NaN | Fin real

fun np_sub :: "npfloat \<Rightarrow> npfloat \<Rightarrow> npfloat" where
  "np_sub (Fin x) (Fin y) = Fin (x - y)"
| "np_sub _ _ = NaN"

fun np_add :: "npfloat \<Rightarrow> npfloat \<Rightarrow> npfloat" where
  "np_add (Fin x) (Fin y) = Fin (x + y)"
| "np_add _ _ = NaN"

fun np_pow :: "npfloat \<Rightarrow> nat \<Rightarrow> npfloat" where
  "np_pow (Fin x) k = Fin (x ^ k)"
| "np_pow NaN k = NaN"

fun np_sqrt :: "npfloat \<Rightarrow> npfloat" where
  "np_sqrt (Fin x) = (if x < 0 then NaN else Fin (sqrt x))"
| "np_sqrt NaN = NaN"

fun np_divide_count :: "npfloat \<Rightarrow> nat \<Rightarrow> npfloat" where
  "np_divide_count (Fin x) k = Fin (x / real k)"
| "np_divide_count NaN k = NaN"

definition np_sum :: "npfloat list \<Rightarrow> npfloat" where
  "np_sum xs = foldr np_add xs (Fin 0)"

definition np_mean :: "npfloat list \<Rightarrow> npfloat" where
  "np_mean xs = (if xs = [] then NaN else np_divide_count (np_sum xs) (length xs))"

fun fin_values :: "npfloat list \<Rightarrow> real list" where
  "fin_values [] = []"
| "fin_values (Fin x # xs) = x # fin_values xs"
| "fin_values (NaN # xs) = fin_values xs"

text \<open>\<^verbatim>\<open>np.median\<close>: the middle element of the sorted values, or the mean of the two
  middle elements when their number is even.\<close>

definition np_median :: "npfloat list \<Rightarrow> npfloat" where
  "np_median xs =
     (if xs = [] \<or> NaN \<in> set xs then NaN
      else let s = sort (fin_values xs); k = length s div 2
           in if odd (length s) then Fin (s ! k)
              else Fin ((s ! (k - 1) + s ! k) / 2))"

section \<open>RMSE and MeanError\<close>

text \<open>
  \<^verbatim>\<open>
  def RMSE(estimates, actual):
      e2 = [(estimate-actual)**2 for estimate in estimates]
      mse = np.mean(e2)
      return np.sqrt(mse)

  def MeanError(estimates, actual):
      errors = [estimate-actual for estimate in estimates]
      return np.mean(errors)
  \<close>
  A call either raises or returns; the outcome is a sum with the error on the left.
  \<open>InvalidArgument\<close> is the error condition of the specification's taxonomy. Neither
  function contains a \<^verbatim>\<open>raise\<close> or a check of its arguments, so both models have the
  returning branch only.
\<close>

datatype error = InvalidArgument

definition RMSE :: "npfloat list \<Rightarrow> npfloat \<Rightarrow> error + npfloat" where
  "RMSE estimates actual =
     (let e2 = map (\<lambda>estimate. np_pow (np_sub estimate actual) 2) estimates;
          mse = np_mean e2
      in Inr (np_sqrt mse))"

definition MeanError :: "npfloat list \<Rightarrow> npfloat \<Rightarrow> error + npfloat" where
  "MeanError estimates actual =
     (let errors = map (\<lambda>estimate. np_sub estimate actual) estimates
      in Inr (np_mean errors))"

text \<open>
  The specification's \<^verbatim>\<open>mean_squared_error\<close>, in its own words: the arithmetic mean of
  the squared differences \<open>(estimate - actual)\<^sup>2\<close> over all estimates. The notebook has
  no function of that name; the quantity is the local \<^verbatim>\<open>mse\<close> of \<^verbatim>\<open>RMSE\<close>.
\<close>

definition spec_mean_squared_error :: "real list \<Rightarrow> real \<Rightarrow> real" where
  "spec_mean_squared_error estimates actual =
     sum_list (map (\<lambda>estimate. (estimate - actual)\<^sup>2) estimates) / real (length estimates)"

section \<open>Estimate1\<close>

text \<open>
  \<^verbatim>\<open>
  def Estimate1(n=7, iters=1000):
      mu = 0
      sigma = 1

      means = []
      medians = []
      for _ in range(iters):
          xs = [random.gauss(mu, sigma) for _ in range(n)]
          xbar = np.mean(xs)
          median = np.median(xs)
          means.append(xbar)
          medians.append(median)

      print('Experiment 1')
      print('rmse xbar', RMSE(means, mu))
      print('rmse median', RMSE(medians, mu))
  \<close>
  \<open>n\<close> and \<open>iters\<close> are Python integers; \<^verbatim>\<open>range\<close> of a negative number is empty, which
  is what \<open>nat\<close> gives. The state of the outer loop is the generator and the two lists.
\<close>

fun gauss_sample :: "real \<Rightarrow> real \<Rightarrow> nat \<Rightarrow> rng \<Rightarrow> real list \<times> rng" where
  "gauss_sample mu sigma 0 g = ([], g)"
| "gauss_sample mu sigma (Suc k) g =
     (let (x, g') = gauss mu sigma g;
          (xs, g'') = gauss_sample mu sigma k g'
      in (x # xs, g''))"

record estimate1_state =
  rng_state :: rng
  means :: "npfloat list"
  medians :: "npfloat list"

definition Estimate1_body :: "int \<Rightarrow> real \<Rightarrow> real \<Rightarrow> estimate1_state \<Rightarrow> estimate1_state" where
  "Estimate1_body n mu sigma s =
     (let (xs, g') = gauss_sample mu sigma (nat n) (rng_state s);
          xbar = np_mean (map Fin xs);
          median = np_median (map Fin xs)
      in \<lparr>rng_state = g', means = means s @ [xbar], medians = medians s @ [median]\<rparr>)"

fun Estimate1_loop :: "nat \<Rightarrow> int \<Rightarrow> real \<Rightarrow> real \<Rightarrow> estimate1_state \<Rightarrow> estimate1_state" where
  "Estimate1_loop 0 n mu sigma s = s"
| "Estimate1_loop (Suc i) n mu sigma s =
     Estimate1_loop i n mu sigma (Estimate1_body n mu sigma s)"

text \<open>The state when the \<^verbatim>\<open>for\<close> loop of \<^verbatim>\<open>Estimate1\<close> is left.\<close>

definition Estimate1_run :: "int \<Rightarrow> int \<Rightarrow> rng \<Rightarrow> estimate1_state" where
  "Estimate1_run n iters g =
     (let mu = 0; sigma = 1
      in Estimate1_loop (nat iters) n mu sigma \<lparr>rng_state = g, means = [], medians = []\<rparr>)"

text \<open>\<^verbatim>\<open>Estimate1\<close> returns nothing; what it prints is its result here, next to the
  generator state it leaves behind.\<close>

datatype line = Text string | Labelled string npfloat

definition Estimate1 :: "int \<Rightarrow> int \<Rightarrow> rng \<Rightarrow> error + (line list \<times> rng)" where
  "Estimate1 n iters g =
     (let mu = 0;
          s = Estimate1_run n iters g
      in case RMSE (means s) (Fin mu) of
           Inl e \<Rightarrow> Inl e
         | Inr rmse_xbar \<Rightarrow>
             (case RMSE (medians s) (Fin mu) of
                Inl e \<Rightarrow> Inl e
              | Inr rmse_median \<Rightarrow>
                  Inr ([Text ''Experiment 1'',
                        Labelled ''rmse xbar'' rmse_xbar,
                        Labelled ''rmse median'' rmse_median], rng_state s)))"

text \<open>The sample of trial \<open>i\<close> (counted from \<open>0\<close>): the \<open>i\<close>-th block of \<open>n\<close> successive
  values of the generator.\<close>

definition trial_sample :: "rng \<Rightarrow> int \<Rightarrow> nat \<Rightarrow> npfloat list" where
  "trial_sample g n i = map Fin (stake (nat n) (sdrop (i * nat n) g))"

section \<open>Double-precision rounding\<close>

text \<open>
  The notebook's floats are IEEE binary64 numbers. A number of magnitude in the binade from
  \<open>2 powi e\<close> up to \<open>2 powi (e + 1)\<close>, with \<open>e \<ge> - 1022\<close>, has a 53-bit significand: its
  neighbours are \<open>2 powi (e - 52)\<close> apart. Below \<open>2 powi (- 1022)\<close> lie the subnormal numbers,
  still \<open>2 powi (- 1074)\<close> apart. Every operation returns the exact result rounded to the
  nearest such number, a tie going to the neighbour with the even significand. Overflow to
  infinity is not modelled; no computation below leaves the finite range.
\<close>

definition round_half_even :: "real \<Rightarrow> int" where
  "round_half_even q =
     (let f = \<lfloor>q\<rfloor>; d = q - of_int f
      in if d < 1/2 then f
         else if 1/2 < d then f + 1
         else if even f then f else f + 1)"

definition double_exponent :: "real \<Rightarrow> int" where
  "double_exponent x = max \<lfloor>log 2 \<bar>x\<bar>\<rfloor> (- 1022)"

definition double_ulp :: "real \<Rightarrow> real" where
  "double_ulp x = 2 powi (double_exponent x - 52)"

definition double_round :: "real \<Rightarrow> real" where
  "double_round x =
     (if x = 0 then 0
      else of_int (round_half_even (x / double_ulp x)) * double_ulp x)"

section \<open>SimulateGame and RMSE with every operation rounded\<close>

text \<open>
  The same two functions once more, with the rounding \<open>rnd\<close> of the machine applied to the
  exact result of every float operation. With \<open>\<lambda>x. x\<close> for \<open>rnd\<close> they are the functions of
  the sections above, in exact real arithmetic; with \<open>double_round\<close> they compute what the
  notebook computes. \<open>t > 1\<close> and the integer \<open>goals\<close> involve no rounding. Results beyond
  the finite range (where Python's \<^verbatim>\<open>**\<close> raises \<^verbatim>\<open>OverflowError\<close> and numpy returns
  \<^verbatim>\<open>inf\<close>) are not modelled.
\<close>

partial_function (option)
  SimulateGame_loop_fl ::
    "(real \<Rightarrow> real) \<Rightarrow> real \<Rightarrow> rng \<Rightarrow> int \<Rightarrow> real \<Rightarrow> (int \<times> rng) option"
where
  "SimulateGame_loop_fl rnd lam g goals t =
     (let (time_between_goals, g') = expovariate lam g;
          t' = rnd (t + time_between_goals)
      in if t' > 1 then Some (goals, g')
         else SimulateGame_loop_fl rnd lam g' (goals + 1) t')"

definition SimulateGame_fl :: "(real \<Rightarrow> real) \<Rightarrow> real \<Rightarrow> rng \<Rightarrow> (int \<times> rng) option" where
  "SimulateGame_fl rnd lam g = SimulateGame_loop_fl rnd lam g 0 0"

text \<open>The clock of the loop: the value of \<open>t\<close> after \<open>k\<close> more gaps, each addition rounded,
  when it reads \<open>t\<close> now; and the elapsed time of a game, which starts the clock at \<open>0\<close>.\<close>

definition clock_from :: "(real \<Rightarrow> real) \<Rightarrow> real \<Rightarrow> rng \<Rightarrow> nat \<Rightarrow> real" where
  "clock_from rnd t g k = foldl (\<lambda>t gap. rnd (t + gap)) t (stake k g)"

definition elapsed_fl :: "(real \<Rightarrow> real) \<Rightarrow> rng \<Rightarrow> nat \<Rightarrow> real" where
  "elapsed_fl rnd g k = clock_from rnd 0 g k"

fun np_sub_fl :: "(real \<Rightarrow> real) \<Rightarrow> npfloat \<Rightarrow> npfloat \<Rightarrow> npfloat" where
  "np_sub_fl rnd (Fin x) (Fin y) = Fin (rnd (x - y))"
| "np_sub_fl rnd _ _ = NaN"

fun np_add_fl :: "(real \<Rightarrow> real) \<Rightarrow> npfloat \<Rightarrow> npfloat \<Rightarrow> npfloat" where
  "np_add_fl rnd (Fin x) (Fin y) = Fin (rnd (x + y))"
| "np_add_fl rnd _ _ = NaN"

fun np_pow_fl :: "(real \<Rightarrow> real) \<Rightarrow> npfloat \<Rightarrow> nat \<Rightarrow> npfloat" where
  "np_pow_fl rnd (Fin x) k = Fin (rnd (x ^ k))"
| "np_pow_fl rnd NaN k = NaN"

fun np_sqrt_fl :: "(real \<Rightarrow> real) \<Rightarrow> npfloat \<Rightarrow> npfloat" where
  "np_sqrt_fl rnd (Fin x) = (if x < 0 then NaN else Fin (rnd (sqrt x)))"
| "np_sqrt_fl rnd NaN = NaN"

fun np_divide_count_fl :: "(real \<Rightarrow> real) \<Rightarrow> npfloat \<Rightarrow> nat \<Rightarrow> npfloat" where
  "np_divide_count_fl rnd (Fin x) k = Fin (rnd (x / real k))"
| "np_divide_count_fl rnd NaN k = NaN"

text \<open>The sum adds from the left. numpy groups the additions of a long input differently,
  which can change the rounded sum; on the two-element list evaluated below every grouping
  gives the same sum.\<close>

definition np_sum_fl :: "(real \<Rightarrow> real) \<Rightarrow> npfloat list \<Rightarrow> npfloat" where
  "np_sum_fl rnd xs = foldl (np_add_fl rnd) (Fin 0) xs"

definition np_mean_fl :: "(real \<Rightarrow> real) \<Rightarrow> npfloat list \<Rightarrow> npfloat" where
  "np_mean_fl rnd xs =
     (if xs = [] then NaN else np_divide_count_fl rnd (np_sum_fl rnd xs) (length xs))"

definition RMSE_fl :: "(real \<Rightarrow> real) \<Rightarrow> npfloat list \<Rightarrow> npfloat \<Rightarrow> error + npfloat" where
  "RMSE_fl rnd estimates actual =
     (let e2 = map (\<lambda>estimate. np_pow_fl rnd (np_sub_fl rnd estimate actual) 2) estimates;
          mse = np_mean_fl rnd e2
      in Inr (np_sqrt_fl rnd mse))"

section \<open>Properties of SimulateGame\<close>

lemma elapsed_0: "elapsed g 0 = 0"
  by (simp add: elapsed_def)


lemma elapsed_Suc_back: "elapsed g (Suc k) = elapsed g k + g !! k"
  unfolding elapsed_def stake_Suc by simp

lemma snth_sconst: "sconst c !! k = c"
  by (induction k) simp_all


text \<open>One turn of the loop: either the new gap takes \<open>t\<close> past \<open>1\<close> and the loop
  returns, or the goal is counted and the loop goes on.\<close>

lemma loop_step_stop:
  "1 < t + shd g \<Longrightarrow> SimulateGame_loop lam g goals t = Some (goals, stl g)"
  by (subst SimulateGame_loop.simps) (simp add: expovariate_def)

lemma loop_step_go:
  "\<not> 1 < t + shd g \<Longrightarrow>
   SimulateGame_loop lam g goals t = SimulateGame_loop lam (stl g) (goals + 1) (t + shd g)"
  by (subst SimulateGame_loop.simps) (simp add: expovariate_def)

text \<open>The count never falls below the value the loop was entered with.\<close>

lemma loop_goals_le:
  assumes run: "SimulateGame_loop lam g goals t = Some r"
  shows "goals \<le> fst r"
proof (rule SimulateGame_loop.raw_induct
         [where P = "\<lambda>lam g goals t r. goals \<le> fst r", OF _ run])
  fix loop :: "real \<Rightarrow> rng \<Rightarrow> int \<Rightarrow> real \<Rightarrow> (int \<times> rng) option"
  fix lam g goals t r
  assume IH: "\<And>lam g goals t r. loop lam g goals t = Some r \<Longrightarrow> goals \<le> fst r"
  assume body: "(let (time_between_goals, g') = expovariate lam g;
                     t' = t + time_between_goals
                 in if 1 < t' then Some (goals, g')
                    else loop lam g' (goals + 1) t') = Some r"
  show "goals \<le> fst r"
  proof (cases "1 < t + shd g")
    case True
    with body show ?thesis by (auto simp: expovariate_def)
  next
    case False
    with body have "loop lam (stl g) (goals + 1) (t + shd g) = Some r"
      by (simp add: expovariate_def)
    then have "goals + 1 \<le> fst r" by (rule IH)
    then show ?thesis by simp
  qed
qed

text \<open>
  C1, as stated, fails: with every gap equal to \<open>0.5\<close> the clock reads \<open>0.5\<close>, then
  exactly \<open>1.0\<close>, which is not \<open>> 1\<close>, so both goals are counted before the third gap
  stops the loop. The returned count is \<open>2\<close>, not \<open>1\<close>.
\<close>

theorem half_gaps_count_is_not_one:
  "map_option fst (SimulateGame 2 (sconst (1/2))) \<noteq> Some 1"
  by (simp add: SimulateGame_def SimulateGame_loop.simps expovariate_def)

text \<open>
  C1, amended: for every rate, a generator whose every gap is exactly \<open>0.5\<close> makes
  SimulateGame return exactly \<open>2\<close>, after three draws.
\<close>

theorem SimulateGame_half_gaps:
  "SimulateGame lam (sconst (1/2)) = Some (2, sconst (1/2))"
  by (simp add: SimulateGame_def SimulateGame_loop.simps expovariate_def)

text \<open>
  C2: if the first gap drawn already exceeds \<open>1.0\<close>, SimulateGame returns \<open>0\<close> (and has
  drawn that one gap only).
\<close>

theorem SimulateGame_first_gap_over:
  "1 < shd g \<Longrightarrow> SimulateGame lam g = Some (0, stl g)"
  by (simp add: SimulateGame_def loop_step_stop)

theorem SimulateGame_first_gap_over_witness:
  "1 < shd ((3/2 :: real) ## 1/4 ## sconst 0) \<and>
   SimulateGame 2 (3/2 ## 1/4 ## sconst 0) = Some (0, 1/4 ## sconst 0)"
  using SimulateGame_first_gap_over [of "3/2 ## 1/4 ## sconst 0" 2] by simp

text \<open>
  C3: for every rate and every generator, a count that SimulateGame returns is a
  non-negative integer; no run returns a negative count.
\<close>

theorem SimulateGame_count_nonneg:
  "SimulateGame lam g = Some (L, g') \<Longrightarrow> 0 \<le> L"
  unfolding SimulateGame_def using loop_goals_le by fastforce

theorem SimulateGame_count_nonneg_witness:
  "SimulateGame 2 (3/10 ## 4/10 ## 1/2 ## sconst 1) = Some (2, sconst 1) \<and> (0::int) \<le> 2"
proof -
  have run: "SimulateGame 2 (3/10 ## 4/10 ## 1/2 ## sconst 1) = Some (2, sconst 1)"
    by (simp add: SimulateGame_def SimulateGame_loop.simps expovariate_def)
  show ?thesis
    using run SimulateGame_count_nonneg [OF run] by simp
qed

section \<open>Properties of double-precision rounding\<close>

text \<open>Rounding to an integer, ties to even: integers stay, the order is kept, and the sign
  can be taken out.\<close>

lemma round_half_even_of_int: "round_half_even (of_int n) = n"
  by (simp add: round_half_even_def)

lemma round_half_even_cases:
  "round_half_even q = \<lfloor>q\<rfloor> \<or> round_half_even q = \<lfloor>q\<rfloor> + 1"
  by (simp add: round_half_even_def Let_def)


lemma round_half_even_mono:
  assumes "q \<le> q'"
  shows "round_half_even q \<le> round_half_even q'"
proof (cases "\<lfloor>q\<rfloor> = \<lfloor>q'\<rfloor>")
  case True
  with assms show ?thesis
    by (auto simp: round_half_even_def Let_def)
next
  case False
  with assms have "\<lfloor>q\<rfloor> + 1 \<le> \<lfloor>q'\<rfloor>"
    using floor_mono [of q q'] by linarith
  moreover have "round_half_even q \<le> \<lfloor>q\<rfloor> + 1"
    using round_half_even_cases [of q] by linarith
  moreover have "\<lfloor>q'\<rfloor> \<le> round_half_even q'"
    using round_half_even_cases [of q'] by linarith
  ultimately show ?thesis by linarith
qed


lemma double_ulp_pos: "0 < double_ulp x"
  by (simp add: double_ulp_def)




lemma double_round_0: "double_round 0 = 0"
  by (simp add: double_round_def)

lemma double_exponent_ge: "- 1022 \<le> double_exponent x"
  by (simp add: double_exponent_def)

lemma powr_powi: "(2::real) powr real_of_int e = 2 powi e"
  by (simp add: powr_real_of_int')


lemma double_exponent_lower:
  assumes "x \<noteq> 0" and "- 1022 < double_exponent x"
  shows "2 powi (double_exponent x) \<le> \<bar>x\<bar>"
proof -
  have pos: "0 < \<bar>x\<bar>" using assms by simp
  have e: "double_exponent x = \<lfloor>log 2 \<bar>x\<bar>\<rfloor>"
    using assms(2) by (simp add: double_exponent_def max_def split: if_splits)
  have "2 powr real_of_int \<lfloor>log 2 \<bar>x\<bar>\<rfloor> \<le> \<bar>x\<bar>"
    using pos floor_log_eq_powr_iff [of "\<bar>x\<bar>" 2 "\<lfloor>log 2 \<bar>x\<bar>\<rfloor>"] by simp
  then show ?thesis
    by (simp add: e powr_powi)
qed

lemma double_exponent_binade:
  assumes lo: "2 powi e \<le> \<bar>x\<bar>" and hi: "\<bar>x\<bar> < 2 powi (e + 1)" and normal: "- 1022 \<le> e"
  shows "double_exponent x = e"
proof -
  have "(0::real) < 2 powi e" by simp
  with lo have pos: "0 < \<bar>x\<bar>" by linarith
  have p2: "(2::real) powr (real_of_int e + 1) = 2 powi (e + 1)"
    using powr_powi [of "e + 1"] by simp
  have "\<lfloor>log 2 \<bar>x\<bar>\<rfloor> = e"
    using pos lo hi by (simp add: floor_log_eq_powr_iff powr_powi p2)
  then show ?thesis
    using normal by (simp add: double_exponent_def max_def)
qed



text \<open>Rounding to a double keeps the order: inside a binade because rounding to an integer
  does, across binades because a rounded value does not leave the closed binade of its
  argument.\<close>

lemma double_round_nonzero:
  "x \<noteq> 0 \<Longrightarrow> double_round x = of_int (round_half_even (x / double_ulp x)) * double_ulp x"
  by (simp add: double_round_def)

lemma round_half_even_ge:
  assumes "of_int n * u \<le> x" and "0 < u"
  shows "n \<le> round_half_even (x / u)"
proof -
  have "of_int n \<le> x / u"
    using assms by (simp add: pos_le_divide_eq)
  then have "round_half_even (of_int n) \<le> round_half_even (x / u)"
    by (rule round_half_even_mono)
  then show ?thesis by (simp add: round_half_even_of_int)
qed



lemma ulp_times_2_52: "2 ^ 52 * double_ulp x = 2 powi (double_exponent x)"
proof -
  have "(2::real) powi (52 + (double_exponent x - 52)) = 2 powi 52 * 2 powi (double_exponent x - 52)"
    by (rule power_int_add) simp
  then show ?thesis
    by (simp add: double_ulp_def)
qed

lemma double_round_nonneg:
  assumes "0 \<le> x"
  shows "0 \<le> double_round x"
proof (cases "x = 0")
  case True
  then show ?thesis by (simp add: double_round_0)
next
  case False
  have "0 \<le> round_half_even (x / double_ulp x)"
    using assms double_ulp_pos [of x] by (intro round_half_even_ge) simp_all
  then show ?thesis
    using False double_ulp_pos [of x] by (simp add: double_round_nonzero)
qed













text \<open>Rounding moves a number by at most half the spacing of its binade, which in the
  normal range is at most the fraction \<open>1 / 2 ^ 53\<close> of the number. The square of a rounded
  square root is therefore within the fraction \<open>1 / 2 ^ 51\<close> of the radicand.\<close>

lemma round_half_even_error: "\<bar>of_int (round_half_even q) - q\<bar> \<le> 1/2"
proof -
  have "of_int \<lfloor>q\<rfloor> \<le> q" and "q < of_int \<lfloor>q\<rfloor> + 1"
    by linarith+
  then show ?thesis
    by (auto simp: round_half_even_def Let_def)
qed

lemma double_round_error:
  "\<bar>double_round x - x\<bar> \<le> double_ulp x / 2"
proof (cases "x = 0")
  case True
  then show ?thesis
    using double_ulp_pos [of x] by (simp add: double_round_0)
next
  case False
  have u: "0 < double_ulp x" by (rule double_ulp_pos)
  have "double_round x - x = (of_int (round_half_even (x / double_ulp x)) - x / double_ulp x) * double_ulp x"
    using False u by (simp add: double_round_nonzero left_diff_distrib)
  then have "\<bar>double_round x - x\<bar>
             = \<bar>of_int (round_half_even (x / double_ulp x)) - x / double_ulp x\<bar> * double_ulp x"
    using u by (simp add: abs_mult)
  also have "\<dots> \<le> 1/2 * double_ulp x"
    using u round_half_even_error [of "x / double_ulp x"] by (intro mult_right_mono) simp_all
  finally show ?thesis by simp
qed

lemma double_ulp_normal:
  assumes "2 powi (- 1022) \<le> \<bar>x\<bar>"
  shows "2 ^ 52 * double_ulp x \<le> \<bar>x\<bar>"
proof -
  have "(0::real) < 2 powi (- 1022)" by simp
  with assms have nz: "x \<noteq> 0" by auto
  show ?thesis
  proof (cases "double_exponent x = - 1022")
    case True
    then show ?thesis
      using assms ulp_times_2_52 [of x] by simp
  next
    case False
    then have "- 1022 < double_exponent x"
      using double_exponent_ge [of x] by linarith
    then have "2 powi (double_exponent x) \<le> \<bar>x\<bar>"
      using nz by (intro double_exponent_lower)
    then show ?thesis
      using ulp_times_2_52 [of x] by simp
  qed
qed

lemma double_round_relative_error:
  assumes "2 powi (- 1022) \<le> \<bar>x\<bar>"
  shows "\<bar>double_round x - x\<bar> \<le> \<bar>x\<bar> / 2 ^ 53"
proof -
  have "\<bar>double_round x - x\<bar> \<le> double_ulp x / 2"
    by (rule double_round_error)
  also have "\<dots> = (2 ^ 52 * double_ulp x) / 2 ^ 53" by simp
  also have "\<dots> \<le> \<bar>x\<bar> / 2 ^ 53"
    using double_ulp_normal [OF assms] by (intro divide_right_mono) simp_all
  finally show ?thesis .
qed

lemma square_of_rounded_root:
  assumes m: "2 powi (- 1074) \<le> m"
  shows "\<bar>(double_round (sqrt m))\<^sup>2 - m\<bar> \<le> m / 2 ^ 51"
proof -
  define a :: real where "a = 2 powi (- 1074)"
  define b :: real where "b = 2 powi (- 1022)"
  define s where "s = sqrt m"
  define r where "r = double_round s"
  have a_pos: "0 < a" and b_pos: "0 < b"
    unfolding a_def b_def by (rule zero_less_power_int, simp)+
  have "b\<^sup>2 = 2 powi (- 1022 * int 2)"
    unfolding b_def by (rule power_int_power')
  also have "\<dots> \<le> a"
    unfolding a_def by (rule power_int_increasing) simp_all
  finally have b2: "b\<^sup>2 \<le> a" .
  have m_a: "a \<le> m" using m unfolding a_def .
  with a_pos have m_pos: "0 < m" by linarith
  then have s_pos: "0 < s" by (simp add: s_def)
  have s2: "s\<^sup>2 = m" using m_pos by (simp add: s_def)
  have bs: "b\<^sup>2 \<le> s\<^sup>2" using b2 m_a by (simp add: s2)
  have "b \<le> s"
  proof (rule power2_le_imp_le)
    show "b\<^sup>2 \<le> s\<^sup>2" by (rule bs)
    show "0 \<le> s" using s_pos by linarith
  qed
  then have b_le: "b \<le> \<bar>s\<bar>" by simp
  have "\<bar>double_round s - s\<bar> \<le> \<bar>s\<bar> / 2 ^ 53"
  proof (rule double_round_relative_error)
    show "2 powi (- 1022) \<le> \<bar>s\<bar>"
      using b_le unfolding b_def .
  qed
  also have "\<bar>s\<bar> = s" using s_pos by simp
  finally have d: "\<bar>r - s\<bar> \<le> s / 2 ^ 53"
    unfolding r_def .
  have r_nonneg: "0 \<le> r"
    unfolding r_def using s_pos by (intro double_round_nonneg) simp
  have "r \<le> s + s / 2 ^ 53" using d by linarith
  also have "\<dots> \<le> s + s" using s_pos by (simp add: field_simps)
  finally have sum: "\<bar>r + s\<bar> \<le> 3 * s" using r_nonneg s_pos by simp
  have "r\<^sup>2 - s\<^sup>2 = (r - s) * (r + s)"
    by (simp add: power2_eq_square algebra_simps)
  then have "\<bar>r\<^sup>2 - s\<^sup>2\<bar> = \<bar>r - s\<bar> * \<bar>r + s\<bar>"
    by (simp only: abs_mult)
  also have "\<dots> \<le> (s / 2 ^ 53) * (3 * s)"
    using d sum by (intro mult_mono) simp_all
  also have "\<dots> = 3 * s\<^sup>2 / 2 ^ 53"
    by (simp add: power2_eq_square)
  also have "\<dots> \<le> 4 * s\<^sup>2 / 2 ^ 53"
    by (intro divide_right_mono) simp_all
  also have "\<dots> = s\<^sup>2 / 2 ^ 51" by simp
  finally have "\<bar>r\<^sup>2 - s\<^sup>2\<bar> \<le> s\<^sup>2 / 2 ^ 51" .
  then show ?thesis
    unfolding s2 unfolding r_def s_def .
qed

text \<open>Evaluating \<open>double_round\<close> on a number whose binade is known, and the values used
  below.\<close>

lemma round_half_even_down:
  "of_int n \<le> q \<Longrightarrow> q < of_int n + 1/2 \<Longrightarrow> round_half_even q = n"
proof -
  assume a: "of_int n \<le> q" "q < of_int n + 1/2"
  then have "\<lfloor>q\<rfloor> = n" by linarith
  with a show ?thesis by (simp add: round_half_even_def)
qed



lemma double_round_binade:
  assumes lo: "2 powi e \<le> \<bar>x\<bar>" and hi: "\<bar>x\<bar> < 2 powi (e + 1)" and normal: "- 1022 \<le> e"
  shows "double_round x = of_int (round_half_even (x / 2 powi (e - 52))) * 2 powi (e - 52)"
proof -
  have "(0::real) < 2 powi e" by simp
  with lo have "0 < \<bar>x\<bar>" by linarith
  then have "x \<noteq> 0" by simp
  moreover have "double_exponent x = e"
    using lo hi normal by (rule double_exponent_binade)
  ultimately show ?thesis
    by (simp add: double_round_nonzero double_ulp_def)
qed

lemma double_round_half: "double_round (1/2) = 1/2"
proof -
  have "round_half_even ((1/2) / 2 powi (-1 - 52)) = 4503599627370496"
    by (rule round_half_even_down) (simp_all add: power_int_minus_divide)
  then show ?thesis
    by (simp add: double_round_binade [of "-1"] power_int_minus_divide)
qed




lemma double_round_1: "double_round 1 = 1"
proof -
  have "round_half_even (1 / 2 powi (0 - 52)) = 4503599627370496"
    by (rule round_half_even_down) (simp_all add: power_int_minus_divide)
  then show ?thesis
    by (simp add: double_round_binade [of 0] power_int_minus_divide)
qed

lemma double_round_three_halves: "double_round (3/2) = 3/2"
proof -
  have "round_half_even ((3/2) / 2 powi (0 - 52)) = 6755399441055744"
    by (rule round_half_even_down) (simp_all add: power_int_minus_divide)
  then show ?thesis
    by (simp add: double_round_binade [of 0] power_int_minus_divide)
qed






section \<open>SimulateGame with the rounded clock\<close>

lemma clock_from_0: "clock_from rnd t g 0 = t"
  by (simp add: clock_from_def)

lemma clock_from_Suc_front:
  "clock_from rnd t g (Suc k) = clock_from rnd (rnd (t + shd g)) (stl g) k"
  by (simp add: clock_from_def)

lemma clock_from_Suc_back:
  "clock_from rnd t g (Suc k) = rnd (clock_from rnd t g k + g !! k)"
  unfolding clock_from_def stake_Suc by simp

lemma elapsed_fl_0: "elapsed_fl rnd g 0 = 0"
  by (simp add: elapsed_fl_def clock_from_0)

lemma elapsed_fl_Suc: "elapsed_fl rnd g (Suc k) = rnd (elapsed_fl rnd g k + g !! k)"
  by (simp add: elapsed_fl_def clock_from_Suc_back)

lemma elapsed_fl_exact: "elapsed_fl (\<lambda>x. x) g k = elapsed g k"
  by (induction k) (simp_all add: elapsed_fl_0 elapsed_0 elapsed_fl_Suc elapsed_Suc_back)

lemma loop_fl_stop:
  "1 < rnd (t + shd g) \<Longrightarrow> SimulateGame_loop_fl rnd lam g goals t = Some (goals, stl g)"
  by (subst SimulateGame_loop_fl.simps) (simp add: expovariate_def)

lemma loop_fl_go:
  "\<not> 1 < rnd (t + shd g) \<Longrightarrow>
   SimulateGame_loop_fl rnd lam g goals t
   = SimulateGame_loop_fl rnd lam (stl g) (goals + 1) (rnd (t + shd g))"
  by (subst SimulateGame_loop_fl.simps) (simp add: expovariate_def)

lemma loop_fl_run:
  "(\<And>j. j < k \<Longrightarrow> clock_from rnd t g (Suc j) \<le> 1) \<Longrightarrow> 1 < clock_from rnd t g (Suc k) \<Longrightarrow>
   SimulateGame_loop_fl rnd lam g goals t = Some (goals + int k, sdrop (Suc k) g)"
proof (induction k arbitrary: g goals t)
  case 0
  then have "1 < rnd (t + shd g)"
    by (simp add: clock_from_Suc_front clock_from_0)
  then show ?case by (simp add: loop_fl_stop)
next
  case (Suc k)
  have first: "\<not> 1 < rnd (t + shd g)"
    using Suc.prems(1) [of 0] by (simp add: clock_from_Suc_front clock_from_0)
  have below: "clock_from rnd (rnd (t + shd g)) (stl g) (Suc j) \<le> 1" if "j < k" for j
    using Suc.prems(1) [of "Suc j"] that by (simp add: clock_from_Suc_front [of rnd t g])
  have above: "1 < clock_from rnd (rnd (t + shd g)) (stl g) (Suc k)"
    using Suc.prems(2) by (simp add: clock_from_Suc_front [of rnd t g])
  have "SimulateGame_loop_fl rnd lam (stl g) (goals + 1) (rnd (t + shd g))
        = Some (goals + 1 + int k, sdrop (Suc k) (stl g))"
    by (rule Suc.IH) (use below above in auto)
  with first show ?case by (simp add: loop_fl_go)
qed




lemma SimulateGame_fl_first_crossing:
  assumes cross: "1 < elapsed_fl rnd g (Suc k)"
    and least: "\<And>j. j \<le> k \<Longrightarrow> elapsed_fl rnd g j \<le> 1"
  shows "SimulateGame_fl rnd lam g = Some (int k, sdrop (Suc k) g)"
proof -
  have "SimulateGame_loop_fl rnd lam g 0 0 = Some (0 + int k, sdrop (Suc k) g)"
  proof (rule loop_fl_run)
    fix j
    assume "j < k"
    then have "elapsed_fl rnd g (Suc j) \<le> 1"
      by (intro least) simp
    then show "clock_from rnd 0 g (Suc j) \<le> 1"
      by (simp only: elapsed_fl_def)
  next
    show "1 < clock_from rnd 0 g (Suc k)"
      using cross by (simp only: elapsed_fl_def)
  qed
  then show ?thesis
    by (simp add: SimulateGame_fl_def)
qed





text \<open>With no rounding the loop is the loop of exact arithmetic, and the clock reads the
  partial sums.\<close>

lemma loop_fl_exact_Some:
  assumes run: "SimulateGame_loop_fl rnd lam g goals t = Some r"
  shows "rnd = (\<lambda>x. x) \<longrightarrow> SimulateGame_loop lam g goals t = Some r"
proof (rule SimulateGame_loop_fl.raw_induct
         [where P = "\<lambda>rnd lam g goals t r.
                      rnd = (\<lambda>x. x) \<longrightarrow> SimulateGame_loop lam g goals t = Some r", OF _ run])
  fix loop :: "(real \<Rightarrow> real) \<Rightarrow> real \<Rightarrow> rng \<Rightarrow> int \<Rightarrow> real \<Rightarrow> (int \<times> rng) option"
  fix rnd lam g goals t r
  assume IH: "\<And>rnd lam g goals t r. loop rnd lam g goals t = Some r
                \<Longrightarrow> rnd = (\<lambda>x. x) \<longrightarrow> SimulateGame_loop lam g goals t = Some r"
  assume body: "(let (time_between_goals, g') = expovariate lam g;
                     t' = rnd (t + time_between_goals)
                 in if 1 < t' then Some (goals, g')
                    else loop rnd lam g' (goals + 1) t') = Some r"
  show "rnd = (\<lambda>x. x) \<longrightarrow> SimulateGame_loop lam g goals t = Some r"
  proof
    assume exact: "rnd = (\<lambda>x. x)"
    show "SimulateGame_loop lam g goals t = Some r"
    proof (cases "1 < t + shd g")
      case True
      with body exact have "r = (goals, stl g)" by (auto simp: expovariate_def)
      with True show ?thesis by (simp add: loop_step_stop)
    next
      case False
      with body exact have "loop rnd lam (stl g) (goals + 1) (t + shd g) = Some r"
        by (simp add: expovariate_def)
      then have "SimulateGame_loop lam (stl g) (goals + 1) (t + shd g) = Some r"
        using IH exact by blast
      with False show ?thesis by (simp add: loop_step_go)
    qed
  qed
qed

lemma loop_exact_fl_Some:
  assumes run: "SimulateGame_loop lam g goals t = Some r"
  shows "SimulateGame_loop_fl (\<lambda>x. x) lam g goals t = Some r"
proof (rule SimulateGame_loop.raw_induct
         [where P = "\<lambda>lam g goals t r. SimulateGame_loop_fl (\<lambda>x. x) lam g goals t = Some r",
          OF _ run])
  fix loop :: "real \<Rightarrow> rng \<Rightarrow> int \<Rightarrow> real \<Rightarrow> (int \<times> rng) option"
  fix lam g goals t r
  assume IH: "\<And>lam g goals t r. loop lam g goals t = Some r
                \<Longrightarrow> SimulateGame_loop_fl (\<lambda>x. x) lam g goals t = Some r"
  assume body: "(let (time_between_goals, g') = expovariate lam g;
                     t' = t + time_between_goals
                 in if 1 < t' then Some (goals, g')
                    else loop lam g' (goals + 1) t') = Some r"
  show "SimulateGame_loop_fl (\<lambda>x. x) lam g goals t = Some r"
  proof (cases "1 < t + shd g")
    case True
    with body have "r = (goals, stl g)" by (auto simp: expovariate_def)
    with True show ?thesis by (simp add: loop_fl_stop)
  next
    case False
    with body have "loop lam (stl g) (goals + 1) (t + shd g) = Some r"
      by (simp add: expovariate_def)
    then have "SimulateGame_loop_fl (\<lambda>x. x) lam (stl g) (goals + 1) (t + shd g) = Some r"
      by (rule IH)
    with False show ?thesis by (simp add: loop_fl_go)
  qed
qed

lemma SimulateGame_fl_exact: "SimulateGame_fl (\<lambda>x. x) lam g = SimulateGame lam g"
proof (cases "SimulateGame lam g")
  case None
  show ?thesis
  proof (cases "SimulateGame_fl (\<lambda>x. x) lam g")
    case None
    with \<open>SimulateGame lam g = None\<close> show ?thesis by simp
  next
    case (Some r)
    then have "SimulateGame lam g = Some r"
      using loop_fl_exact_Some [of "\<lambda>x. x" lam g 0 0 r]
      by (simp add: SimulateGame_fl_def SimulateGame_def)
    with None show ?thesis by simp
  qed
next
  case (Some r)
  then show ?thesis
    using loop_exact_fl_Some [of lam g 0 0 r]
    by (simp add: SimulateGame_fl_def SimulateGame_def)
qed











text \<open>What was shown of the exact loop holds of the rounded loop as well: the count is
  never negative, whatever the rounding; a first gap beyond \<open>1.0\<close> that is a double gives
  \<open>0\<close>; and gaps of \<open>0.5\<close> give \<open>2\<close> in double arithmetic, where \<open>0.5\<close>, \<open>1.0\<close> and \<open>1.5\<close>
  are exact.\<close>

lemma loop_fl_goals_le:
  assumes run: "SimulateGame_loop_fl rnd lam g goals t = Some r"
  shows "goals \<le> fst r"
proof (rule SimulateGame_loop_fl.raw_induct
         [where P = "\<lambda>rnd lam g goals t r. goals \<le> fst r", OF _ run])
  fix loop :: "(real \<Rightarrow> real) \<Rightarrow> real \<Rightarrow> rng \<Rightarrow> int \<Rightarrow> real \<Rightarrow> (int \<times> rng) option"
  fix rnd lam g goals t r
  assume IH: "\<And>rnd lam g goals t r. loop rnd lam g goals t = Some r \<Longrightarrow> goals \<le> fst r"
  assume body: "(let (time_between_goals, g') = expovariate lam g;
                     t' = rnd (t + time_between_goals)
                 in if 1 < t' then Some (goals, g')
                    else loop rnd lam g' (goals + 1) t') = Some r"
  show "goals \<le> fst r"
  proof (cases "1 < rnd (t + shd g)")
    case True
    with body show ?thesis by (auto simp: expovariate_def)
  next
    case False
    with body have "loop rnd lam (stl g) (goals + 1) (rnd (t + shd g)) = Some r"
      by (simp add: expovariate_def)
    then have "goals + 1 \<le> fst r" by (rule IH)
    then show ?thesis by simp
  qed
qed

lemma SimulateGame_fl_count_nonneg:
  "SimulateGame_fl rnd lam g = Some (L, g') \<Longrightarrow> 0 \<le> L"
  unfolding SimulateGame_fl_def using loop_fl_goals_le by fastforce

lemma SimulateGame_fl_first_gap_over:
  "double_round (shd g) = shd g \<Longrightarrow> 1 < shd g \<Longrightarrow>
   SimulateGame_fl double_round lam g = Some (0, stl g)"
  by (simp add: SimulateGame_fl_def loop_fl_stop)

lemma half_gaps_clock:
  "elapsed_fl double_round (sconst (1/2)) (Suc 0) = 1/2"
  "elapsed_fl double_round (sconst (1/2)) (Suc (Suc 0)) = 1"
  "elapsed_fl double_round (sconst (1/2)) (Suc (Suc (Suc 0))) = 3/2"
proof -
  have "elapsed_fl double_round (sconst (1/2)) (Suc 0) = double_round (0 + 1/2)"
    by (simp only: elapsed_fl_Suc elapsed_fl_0 snth_sconst)
  also have "(0 + 1/2 :: real) = 1/2" by simp
  finally show c1: "elapsed_fl double_round (sconst (1/2)) (Suc 0) = 1/2"
    by (simp only: double_round_half)
  have "elapsed_fl double_round (sconst (1/2)) (Suc (Suc 0)) = double_round (1/2 + 1/2)"
    by (simp only: elapsed_fl_Suc [of _ _ "Suc 0"] c1 snth_sconst)
  also have "(1/2 + 1/2 :: real) = 1" by simp
  finally show c2: "elapsed_fl double_round (sconst (1/2)) (Suc (Suc 0)) = 1"
    by (simp only: double_round_1)
  have "elapsed_fl double_round (sconst (1/2)) (Suc (Suc (Suc 0))) = double_round (1 + 1/2)"
    by (simp only: elapsed_fl_Suc [of _ _ "Suc (Suc 0)"] c2 snth_sconst)
  also have "(1 + 1/2 :: real) = 3/2" by simp
  finally show "elapsed_fl double_round (sconst (1/2)) (Suc (Suc (Suc 0))) = 3/2"
    by (simp only: double_round_three_halves)
qed

lemma SimulateGame_fl_half_gaps:
  "SimulateGame_fl double_round lam (sconst (1/2)) = Some (2, sconst (1/2))"
proof -
  have "SimulateGame_fl double_round lam (sconst (1/2))
        = Some (int (Suc (Suc 0)), sdrop (Suc (Suc (Suc 0))) (sconst (1/2)))"
  proof (rule SimulateGame_fl_first_crossing)
    show "1 < elapsed_fl double_round (sconst (1/2)) (Suc (Suc (Suc 0)))"
      unfolding half_gaps_clock by simp
    show "elapsed_fl double_round (sconst (1/2)) j \<le> 1" if "j \<le> Suc (Suc 0)" for j
    proof -
      from that consider "j = 0" | "j = Suc 0" | "j = Suc (Suc 0)" by linarith
      then show ?thesis
      proof cases
        case 1
        then show ?thesis by (simp add: elapsed_fl_0)
      next
        case 2
        show ?thesis unfolding 2 half_gaps_clock by simp
      next
        case 3
        show ?thesis unfolding 3 half_gaps_clock by simp
      qed
    qed
  qed
  then show ?thesis by simp
qed







section \<open>Properties of RMSE and MeanError\<close>

lemma np_sum_Fin: "np_sum (map Fin xs) = Fin (sum_list xs)"
  by (induction xs) (simp_all add: np_sum_def)

lemma np_mean_Fin:
  "xs \<noteq> [] \<Longrightarrow> np_mean (map Fin xs) = Fin (sum_list xs / real (length xs))"
  by (simp add: np_mean_def np_sum_Fin)

lemma squared_errors_Fin:
  "map (\<lambda>estimate. np_pow (np_sub estimate (Fin a)) 2) (map Fin xs)
   = map Fin (map (\<lambda>e. (e - a)\<^sup>2) xs)"
  by simp

lemma errors_Fin:
  "map (\<lambda>estimate. np_sub estimate (Fin a)) (map Fin xs) = map Fin (map (\<lambda>e. e - a) xs)"
  by simp

lemma spec_mean_squared_error_nonneg: "0 \<le> spec_mean_squared_error xs a"
proof -
  have "0 \<le> sum_list (map (\<lambda>e. (e - a)\<^sup>2) xs)"
    by (rule sum_list_nonneg) auto
  then show ?thesis
    by (simp add: spec_mean_squared_error_def)
qed

text \<open>On finite estimates, of which there is at least one, both functions return a number.\<close>

lemma RMSE_Fin:
  assumes ne: "xs \<noteq> []"
  shows "RMSE (map Fin xs) (Fin a) = Inr (Fin (sqrt (spec_mean_squared_error xs a)))"
proof -
  from ne have ne2: "map (\<lambda>e. (e - a)\<^sup>2) xs \<noteq> []" by simp
  have "np_mean (map Fin (map (\<lambda>e. (e - a)\<^sup>2) xs)) = Fin (spec_mean_squared_error xs a)"
    using np_mean_Fin [OF ne2] by (simp add: spec_mean_squared_error_def)
  moreover have "\<not> spec_mean_squared_error xs a < 0"
    using spec_mean_squared_error_nonneg [of xs a] by simp
  ultimately show ?thesis
    unfolding RMSE_def Let_def squared_errors_Fin by simp
qed

lemma MeanError_Fin:
  assumes ne: "xs \<noteq> []"
  shows "MeanError (map Fin xs) (Fin a)
         = Inr (Fin (sum_list (map (\<lambda>e. e - a) xs) / real (length xs)))"
proof -
  from ne have ne2: "map (\<lambda>e. e - a) xs \<noteq> []" by simp
  show ?thesis
    unfolding MeanError_def Let_def errors_Fin using np_mean_Fin [OF ne2] by simp
qed

lemma sum_errors_all_equal:
  "(\<forall>e\<in>set xs. e = a) \<Longrightarrow> sum_list (map (\<lambda>e. e - a) xs) = (0::real)"
  by (induction xs) simp_all

lemma sum_squared_errors_all_equal:
  "(\<forall>e\<in>set xs. e = a) \<Longrightarrow> sum_list (map (\<lambda>e. (e - a)\<^sup>2) xs) = (0::real)"
  by (induction xs) simp_all

text \<open>The sum of squared deviations from any \<open>m\<close>, expanded.\<close>

lemma sum_squared_deviations:
  fixes ds :: "real list"
  shows "sum_list (map (\<lambda>d. (d - m)\<^sup>2) ds)
         = sum_list (map (\<lambda>d. d\<^sup>2) ds) - 2 * m * sum_list ds + real (length ds) * m\<^sup>2"
  by (induction ds) (simp_all add: power2_eq_square algebra_simps)

text \<open>The square of the mean is at most the mean of the squares: the deviations from the
  mean have a non-negative sum of squares.\<close>

lemma square_mean_le_mean_square:
  fixes ds :: "real list"
  assumes "ds \<noteq> []"
  shows "(sum_list ds / real (length ds))\<^sup>2 \<le> sum_list (map (\<lambda>d. d\<^sup>2) ds) / real (length ds)"
proof -
  define n where "n = real (length ds)"
  define S where "S = sum_list ds"
  define Q where "Q = sum_list (map (\<lambda>d. d\<^sup>2) ds)"
  have n: "0 < n" using assms by (simp add: n_def)
  have "0 \<le> sum_list (map (\<lambda>d. (d - S / n)\<^sup>2) ds)"
    by (rule sum_list_nonneg) auto
  also have "\<dots> = Q - 2 * (S / n) * S + n * (S / n)\<^sup>2"
    unfolding Q_def S_def n_def by (rule sum_squared_deviations)
  also have "\<dots> = Q - S\<^sup>2 / n"
    using n by (simp add: power2_eq_square field_simps)
  finally have "S\<^sup>2 / n \<le> Q" by simp
  then have "S\<^sup>2 / n / n \<le> Q / n"
    using n by (intro divide_right_mono) simp_all
  moreover have "S\<^sup>2 / n / n = (S / n)\<^sup>2"
    by (simp add: power_divide power2_eq_square)
  ultimately show ?thesis
    unfolding Q_def S_def n_def by simp
qed

text \<open>
  C4, as stated, fails: on the empty collection \<^verbatim>\<open>RMSE\<close> does not raise. The mean of the
  empty list of squared errors is \<open>NaN\<close>, its square root is \<open>NaN\<close>, and that is returned.
\<close>

theorem RMSE_empty_does_not_raise:
  "RMSE [] (Fin 0) = Inr NaN \<and> RMSE [] (Fin 0) \<noteq> Inl InvalidArgument"
  by (simp add: RMSE_def np_mean_def)

text \<open>
  C4, amended: on an empty estimates collection \<^verbatim>\<open>RMSE\<close> raises no error; for every
  actual value it returns \<open>NaN\<close>.
\<close>

theorem RMSE_of_empty_is_NaN:
  "RMSE [] actual = Inr NaN"
  by (simp add: RMSE_def np_mean_def)

text \<open>In exact arithmetic \<open>RMSE_fl\<close> is \<open>RMSE\<close>.\<close>

lemma np_sub_fl_exact: "np_sub_fl (\<lambda>x. x) a b = np_sub a b"
  by (cases a; cases b) simp_all

lemma np_add_fl_exact: "np_add_fl (\<lambda>x. x) a b = np_add a b"
  by (cases a; cases b) simp_all

lemma np_pow_fl_exact: "np_pow_fl (\<lambda>x. x) a k = np_pow a k"
  by (cases a) simp_all

lemma np_sqrt_fl_exact: "np_sqrt_fl (\<lambda>x. x) a = np_sqrt a"
  by (cases a) simp_all

lemma np_divide_count_fl_exact: "np_divide_count_fl (\<lambda>x. x) a k = np_divide_count a k"
  by (cases a) simp_all

lemma np_add_assoc: "np_add (np_add a b) c = np_add a (np_add b c)"
  by (cases a; cases b; cases c) simp_all

lemma np_add_commute: "np_add a b = np_add b a"
  by (cases a; cases b) simp_all

lemma foldl_np_add: "foldl np_add a xs = np_add a (foldr np_add xs (Fin 0))"
proof (induction xs arbitrary: a)
  case Nil
  show ?case by (cases a) simp_all
next
  case (Cons x xs)
  show ?case by (simp add: Cons.IH np_add_assoc)
qed

lemma np_sum_fl_exact: "np_sum_fl (\<lambda>x. x) xs = np_sum xs"
proof -
  have "np_add_fl (\<lambda>x. x) = np_add"
    by (intro ext) (rule np_add_fl_exact)
  then have "np_sum_fl (\<lambda>x. x) xs = np_add (Fin 0) (foldr np_add xs (Fin 0))"
    by (simp add: np_sum_fl_def foldl_np_add)
  also have "\<dots> = np_sum xs"
    by (cases "foldr np_add xs (Fin 0)") (simp_all add: np_sum_def)
  finally show ?thesis .
qed

lemma RMSE_fl_exact: "RMSE_fl (\<lambda>x. x) estimates actual = RMSE estimates actual"
  by (simp add: RMSE_fl_def RMSE_def Let_def np_mean_fl_def np_mean_def np_sum_fl_exact
        np_sub_fl_exact np_pow_fl_exact np_sqrt_fl_exact np_divide_count_fl_exact)



text \<open>Up to rounding the square of what \<^verbatim>\<open>RMSE\<close> returns in double arithmetic is the mean
  \<^verbatim>\<open>mse\<close> it computed, a double that is \<open>0\<close> or at least \<open>2 powi (- 1074)\<close>: the two differ by
  at most the fraction \<open>1 / 2 ^ 51\<close> of that mean (as long as no intermediate result leaves
  the finite range, which is not modelled).\<close>

lemma RMSE_fl_squared_within_tolerance:
  assumes mse: "np_mean_fl double_round
                  (map (\<lambda>estimate. np_pow_fl double_round (np_sub_fl double_round estimate actual) 2)
                     estimates) = Fin m"
    and double: "m = 0 \<or> 2 powi (- 1074) \<le> m"
  shows "\<exists>r. RMSE_fl double_round estimates actual = Inr (Fin r) \<and> \<bar>r\<^sup>2 - m\<bar> \<le> m / 2 ^ 51"
proof (cases "m = 0")
  case True
  then show ?thesis
    unfolding RMSE_fl_def Let_def mse by (simp add: double_round_0)
next
  case False
  with double have m: "2 powi (- 1074) \<le> m" by simp
  have "(0::real) < 2 powi (- 1074)"
    by (rule zero_less_power_int) simp
  with m have "\<not> m < 0" by linarith
  then have "RMSE_fl double_round estimates actual = Inr (Fin (double_round (sqrt m)))"
    unfolding RMSE_fl_def Let_def mse by simp
  then show ?thesis
    using square_of_rounded_root [OF m] by blast
qed




text \<open>
  C6: for every non-empty collection in which every estimate equals the actual value,
  both \<^verbatim>\<open>MeanError\<close> and \<^verbatim>\<open>RMSE\<close> return exactly \<open>0\<close>.
\<close>

theorem MeanError_RMSE_zero_on_exact_estimates:
  "xs \<noteq> [] \<Longrightarrow> \<forall>e\<in>set xs. e = a \<Longrightarrow>
   MeanError (map Fin xs) (Fin a) = Inr (Fin 0) \<and> RMSE (map Fin xs) (Fin a) = Inr (Fin 0)"
  by (simp add: RMSE_Fin MeanError_Fin spec_mean_squared_error_def
        sum_errors_all_equal sum_squared_errors_all_equal)

theorem MeanError_RMSE_zero_on_exact_estimates_witness:
  "[4, 4, 4 :: real] \<noteq> [] \<and> set [4, 4, 4 :: real] = {4} \<and>
   MeanError (map Fin [4, 4, 4]) (Fin 4) = Inr (Fin 0) \<and>
   RMSE (map Fin [4, 4, 4]) (Fin 4) = Inr (Fin 0)"
proof -
  have ne: "[4, 4, 4 :: real] \<noteq> []" by simp
  have all_equal: "\<forall>e\<in>set [4, 4, 4 :: real]. e = 4" by simp
  show ?thesis
    using MeanError_RMSE_zero_on_exact_estimates [OF ne all_equal] by simp
qed

text \<open>
  C10: for every non-empty collection of estimates and every actual value, in exact real
  arithmetic, \<^verbatim>\<open>RMSE\<close> is at least the absolute value of \<^verbatim>\<open>MeanError\<close>; in particular
  \<^verbatim>\<open>RMSE\<close> is not negative.
\<close>

theorem RMSE_ge_abs_MeanError:
  assumes ne: "xs \<noteq> []"
  shows "\<exists>r m. RMSE (map Fin xs) (Fin a) = Inr (Fin r)
             \<and> MeanError (map Fin xs) (Fin a) = Inr (Fin m)
             \<and> \<bar>m\<bar> \<le> r \<and> 0 \<le> r"
proof -
  define ds where "ds = map (\<lambda>e. e - a) xs"
  have len: "length ds = length xs" by (simp add: ds_def)
  have ds_ne: "ds \<noteq> []" using ne by (simp add: ds_def)
  have sq: "map (\<lambda>d. d\<^sup>2) ds = map (\<lambda>e. (e - a)\<^sup>2) xs"
    by (simp add: ds_def comp_def)
  have "(sum_list ds / real (length xs))\<^sup>2 \<le> spec_mean_squared_error xs a"
    using square_mean_le_mean_square [OF ds_ne]
    unfolding sq len spec_mean_squared_error_def .
  then have "\<bar>sum_list ds / real (length xs)\<bar>\<^sup>2 \<le> spec_mean_squared_error xs a"
    by (simp only: power2_abs)
  then have "\<bar>sum_list ds / real (length xs)\<bar> \<le> sqrt (spec_mean_squared_error xs a)"
    by (rule real_le_rsqrt)
  moreover have "0 \<le> sqrt (spec_mean_squared_error xs a)"
    using spec_mean_squared_error_nonneg [of xs a] by simp
  ultimately show ?thesis
    using ne by (simp add: RMSE_Fin MeanError_Fin ds_def)
qed

theorem RMSE_ge_abs_MeanError_witness:
  "[1, 3 :: real] \<noteq> [] \<and> RMSE (map Fin [1, 3]) (Fin 0) = Inr (Fin (sqrt 5))
   \<and> MeanError (map Fin [1, 3]) (Fin 0) = Inr (Fin 2) \<and> \<bar>2 :: real\<bar> \<le> sqrt 5"
proof -
  have ne: "[1, 3 :: real] \<noteq> []" by simp
  have rmse: "RMSE (map Fin [1, 3]) (Fin 0) = Inr (Fin (sqrt 5))"
    by (simp add: RMSE_def np_mean_def np_sum_def)
  have me: "MeanError (map Fin [1, 3]) (Fin 0) = Inr (Fin 2)"
    by (simp add: MeanError_def np_mean_def np_sum_def)
  obtain r m where "RMSE (map Fin [1, 3]) (Fin 0) = Inr (Fin r)"
    and "MeanError (map Fin [1, 3]) (Fin 0) = Inr (Fin m)" and "\<bar>m\<bar> \<le> r"
    using RMSE_ge_abs_MeanError [OF ne, of 0] by blast
  with rmse me have "\<bar>2 :: real\<bar> \<le> sqrt 5" by simp
  with ne rmse me show ?thesis by blast
qed

section \<open>Properties of Estimate1\<close>

lemma gauss_sample_eq: "gauss_sample mu sigma k g = (stake k g, sdrop k g)"
  by (induction k arbitrary: g) (simp_all add: gauss_def)

lemma Estimate1_body_eq:
  "Estimate1_body n mu sigma s =
     \<lparr>rng_state = sdrop (nat n) (rng_state s),
      means = means s @ [np_mean (trial_sample (rng_state s) n 0)],
      medians = medians s @ [np_median (trial_sample (rng_state s) n 0)]\<rparr>"
  by (simp add: Estimate1_body_def gauss_sample_eq trial_sample_def)

lemma trial_sample_shift:
  "trial_sample (sdrop (nat n) g) n i = trial_sample g n (Suc i)"
  by (simp add: trial_sample_def add.commute)

text \<open>The loop, started in any state: each turn reads the next \<open>n\<close> values and appends
  the mean and the median of those same values.\<close>

lemma Estimate1_loop_eq:
  "Estimate1_loop k n mu sigma s =
     \<lparr>rng_state = sdrop (k * nat n) (rng_state s),
      means = means s @ map (\<lambda>i. np_mean (trial_sample (rng_state s) n i)) [0..<k],
      medians = medians s @ map (\<lambda>i. np_median (trial_sample (rng_state s) n i)) [0..<k]\<rparr>"
proof (induction k arbitrary: s)
  case 0
  show ?case by simp
next
  case (Suc k)
  show ?case
    unfolding Estimate1_loop.simps Suc.IH
    by (simp add: Estimate1_body_eq trial_sample_shift map_upt_Suc add.commute del: upt_Suc)
qed

text \<open>
  C7: in each of its \<open>iters\<close> trials \<^verbatim>\<open>Estimate1\<close> draws one fresh sample of size \<open>n\<close>
  (trial \<open>i\<close> reads the \<open>i\<close>-th block of \<open>n\<close> values, \<open>iters * n\<close> values in all) and applies
  both the mean and the median to that same sample; after the loop each of the two
  collections has length exactly \<open>iters\<close>.
\<close>

theorem Estimate1_same_sample_per_trial:
  assumes "0 \<le> n" and "0 \<le> iters"
  shows "means (Estimate1_run n iters g)
           = map (\<lambda>i. np_mean (trial_sample g n i)) [0..<nat iters]
       \<and> medians (Estimate1_run n iters g)
           = map (\<lambda>i. np_median (trial_sample g n i)) [0..<nat iters]
       \<and> rng_state (Estimate1_run n iters g) = sdrop (nat iters * nat n) g
       \<and> int (length (means (Estimate1_run n iters g))) = iters
       \<and> int (length (medians (Estimate1_run n iters g))) = iters
       \<and> (\<forall>i. int (length (trial_sample g n i)) = n)"
  using assms by (simp add: Estimate1_run_def Estimate1_loop_eq trial_sample_def)

theorem Estimate1_same_sample_per_trial_witness:
  "(0::int) \<le> 3 \<and> (0::int) \<le> 2 \<and>
   means (Estimate1_run 3 2 (1 ## 3 ## 5 ## 6 ## 0 ## 0 ## 7 ## sconst 9)) = [Fin 3, Fin 2] \<and>
   medians (Estimate1_run 3 2 (1 ## 3 ## 5 ## 6 ## 0 ## 0 ## 7 ## sconst 9)) = [Fin 3, Fin 0] \<and>
   rng_state (Estimate1_run 3 2 (1 ## 3 ## 5 ## 6 ## 0 ## 0 ## 7 ## sconst 9)) = 7 ## sconst 9"
proof -
  have first: "trial_sample (1 ## 3 ## 5 ## 6 ## 0 ## 0 ## 7 ## sconst 9) 3 0
               = [Fin 1, Fin 3, Fin 5]"
    by (simp add: trial_sample_def eval_nat_numeral)
  have second: "trial_sample (1 ## 3 ## 5 ## 6 ## 0 ## 0 ## 7 ## sconst 9) 3 (Suc 0)
                = [Fin 6, Fin 0, Fin 0]"
    by (simp add: trial_sample_def eval_nat_numeral)
  have rest: "sdrop (nat 2 * nat 3) (1 ## 3 ## 5 ## 6 ## 0 ## 0 ## 7 ## sconst (9::real))
              = 7 ## sconst 9"
    by (simp add: eval_nat_numeral)
  have trials: "[0..<nat 2] = [0, Suc 0]"
    by (simp add: eval_nat_numeral)
  have mean1: "np_mean [Fin 1, Fin 3, Fin 5] = Fin 3"
    and mean2: "np_mean [Fin 6, Fin 0, Fin 0] = Fin 2"
    by (simp_all add: np_mean_def np_sum_def)
  have median1: "np_median [Fin 1, Fin 3, Fin 5] = Fin 3"
    and median2: "np_median [Fin 6, Fin 0, Fin 0] = Fin 0"
    by (simp_all add: np_median_def)
  show ?thesis
    using Estimate1_same_sample_per_trial
            [of 3 2 "1 ## 3 ## 5 ## 6 ## 0 ## 0 ## 7 ## sconst 9"]
    by (simp only: trials rest list.map first second mean1 mean2 median1 median2) simp
qed

end
